theory Spec2Isabelle
  imports Main
begin

section \<open>Data model (backend/models.py)\<close>

text \<open>
  The Pydantic models become records and datatypes. Python \<open>Optional[T]\<close> is
  \<open>T option\<close>, Python \<open>int\<close> is \<open>int\<close>, \<open>str\<close> is \<open>string\<close> and a
  \<open>datetime\<close> is a clock reading of type \<open>nat\<close>. Several models share field names
  (\<open>plan\<close>, \<open>change_summary\<close>, ...); the fields of \<open>PlanVersion\<close>, \<open>Session\<close>
  and \<open>ChatResponse\<close> that would clash carry the prefixes \<open>pv_\<close>, \<open>s_\<close> and \<open>cr_\<close>.
\<close>

datatype StepStatus = PENDING | IN_PROGRESS | COMPLETED

record PlanStep =
  step_id :: string
  step_title :: string
  description :: string
  status :: StepStatus

record Plan =
  title :: string
  overview :: string
  steps :: "PlanStep list"

datatype ActionType = NONE | PROPOSE | CREATE | UPDATE

record AgentResponse =
  thought :: string
  response_to_user :: string
  action :: ActionType
  plan :: "Plan option"
  change_summary :: "string option"
  plan_summary :: "string option"
  conversation_summary :: "string option"

datatype MessageRole = USER | ASSISTANT | SYSTEM

record Message =
  role :: MessageRole
  content :: string
  timestamp :: nat
  is_blocked :: bool

record PlanVersion =
  version :: int
  pv_plan :: Plan
  pv_change_summary :: string
  created_at :: nat

record Session =
  session_id :: string
  user_id :: "string option"
  plan_name :: "string option"
  messages :: "Message list"
  current_plan :: "Plan option"
  pending_plan :: "Plan option"
  plan_versions :: "PlanVersion list"
  user_preferences :: "string \<rightharpoonup> string"
  compressed_context :: "string option"
  s_conversation_summary :: "string option"
  s_plan_summary :: "string option"
  s_change_summary :: "string option"
  turn_count :: int

record ChatRequest =
  req_session_id :: string
  message :: string

record ChatResponse =
  response :: string
  cr_plan :: "Plan option"
  cr_action :: ActionType
  cr_change_summary :: "string option"
  cr_plan_summary :: "string option"
  cr_conversation_summary :: "string option"
  cr_turn_count :: int
  plan_version :: "int option"
  awaiting_confirmation :: bool

text \<open>\<open>MessageRole.value\<close>: the string behind each member of the enum.\<close>

fun role_value :: "MessageRole \<Rightarrow> string" where
  "role_value USER = ''user''"
| "role_value ASSISTANT = ''assistant''"
| "role_value SYSTEM = ''system''"

text \<open>
  Python truthiness of an \<open>Optional[str]\<close>, as tested by \<open>if x:\<close> and \<open>x or d\<close>:
  \<open>None\<close> and the empty string are both false.
\<close>

fun truthy_str :: "string option \<Rightarrow> bool" where
  "truthy_str None = False"
| "truthy_str (Some t) = (t \<noteq> [])"

text \<open>\<open>x or d\<close> for an \<open>Optional[str]\<close> \<open>x\<close> and a string \<open>d\<close>.\<close>

fun str_or :: "string option \<Rightarrow> string \<Rightarrow> string" where
  "str_or None d = d"
| "str_or (Some t) d = (if t \<noteq> [] then t else d)"

text \<open>\<open>Session(session_id=..., user_id=...)\<close>: every other field takes its default.\<close>

definition new_session :: "string \<Rightarrow> string \<Rightarrow> Session" where
  "new_session sid uid =
     \<lparr>session_id = sid, user_id = Some uid, plan_name = None, messages = [],
      current_plan = None, pending_plan = None, plan_versions = [],
      user_preferences = Map.empty, compressed_context = None,
      s_conversation_summary = None, s_plan_summary = None, s_change_summary = None,
      turn_count = 0\<rparr>"

section \<open>Preference extraction (backend/context\_manager.py)\<close>

text \<open>
  \<open>_PREFERENCE_KEYWORDS\<close>: a dict of dicts, iterated in insertion order, so it is an
  association list of association lists.
\<close>

definition PREFERENCE_KEYWORDS :: "(string \<times> (string \<times> string) list) list" where
  "PREFERENCE_KEYWORDS =
     [(''detail_level'',
        [(''detailed'', ''detailed''), (''brief'', ''brief''), (''concise'', ''brief''),
         (''verbose'', ''detailed''), (''short'', ''brief'')]),
      (''tone'',
        [(''formal'', ''formal''), (''casual'', ''casual''), (''professional'', ''formal''),
         (''friendly'', ''casual'')])]"

text \<open>
  \<open>str.lower()\<close> on the characters of \<open>string\<close>, which are bytes: the letters
  \<open>A\<close> to \<open>Z\<close> (codes 65 to 90) move to \<open>a\<close> to \<open>z\<close>, every other byte stays.
\<close>

definition lower_char :: "char \<Rightarrow> char" where
  "lower_char c =
     (let n = (of_char c :: nat) in if 65 \<le> n \<and> n \<le> 90 then char_of (n + 32) else c)"

definition str_lower :: "string \<Rightarrow> string" where
  "str_lower t = map lower_char t"

text \<open>\<open>t.startswith(w)\<close> and the substring test \<open>w in t\<close>.\<close>

fun startswith :: "string \<Rightarrow> string \<Rightarrow> bool" where
  "startswith [] t = True"
| "startswith (a # w) [] = False"
| "startswith (a # w) (b # t) = (a = b \<and> startswith w t)"

fun str_contains :: "string \<Rightarrow> string \<Rightarrow> bool" where
  "str_contains w [] = (w = [])"
| "str_contains w (c # cs) = (startswith w (c # cs) \<or> str_contains w cs)"

text \<open>
  The inner loop \<open>for word, value in keywords.items()\<close> and the outer loop
  \<open>for pref_key, keywords in _PREFERENCE_KEYWORDS.items()\<close> of
  \<open>extract_preferences\<close>; \<open>updated\<close> is the dict being written.
\<close>

fun scan_keywords ::
  "string \<Rightarrow> string \<Rightarrow> (string \<times> string) list \<Rightarrow> (string \<rightharpoonup> string) \<Rightarrow> (string \<rightharpoonup> string)"
where
  "scan_keywords lower pref_key [] updated = updated"
| "scan_keywords lower pref_key ((word, val) # keywords) updated =
     scan_keywords lower pref_key keywords
       (if str_contains word lower then updated(pref_key \<mapsto> val) else updated)"

fun scan_categories ::
  "string \<Rightarrow> (string \<times> (string \<times> string) list) list \<Rightarrow> (string \<rightharpoonup> string)
     \<Rightarrow> (string \<rightharpoonup> string)"
where
  "scan_categories lower [] updated = updated"
| "scan_categories lower ((pref_key, keywords) # rest) updated =
     scan_categories lower rest (scan_keywords lower pref_key keywords updated)"

text \<open>
  \<open>updated = dict(existing)\<close> copies the dict; in the model maps are values, so the
  copy is \<open>existing\<close> itself and the caller's map cannot be written.
\<close>

definition extract_preferences :: "string \<Rightarrow> (string \<rightharpoonup> string) \<Rightarrow> (string \<rightharpoonup> string)" where
  "extract_preferences text existing =
     scan_categories (str_lower text) PREFERENCE_KEYWORDS existing"

text \<open>
  The specification's reading of the result, to be compared with the loops above: the
  values of the keywords of one category that occur in the text, in scan order, and the
  last of them when there is one.
\<close>

definition matching_values :: "string \<Rightarrow> (string \<times> string) list \<Rightarrow> string list" where
  "matching_values lower keywords =
     map snd (filter (\<lambda>kw. str_contains (fst kw) lower) keywords)"

definition last_match :: "string \<Rightarrow> (string \<times> string) list \<Rightarrow> string option" where
  "last_match lower keywords =
     (let vs = matching_values lower keywords in if vs = [] then None else Some (last vs))"

section \<open>Context compression and assembly (backend/context\_manager.py)\<close>

definition TOKEN_LIMIT :: nat where
  "TOKEN_LIMIT = 8000"

definition CHARS_PER_TOKEN :: nat where
  "CHARS_PER_TOKEN = 4"

definition CHAR_LIMIT :: nat where
  "CHAR_LIMIT = TOKEN_LIMIT * CHARS_PER_TOKEN"

text \<open>
  \<open>int(CHAR_LIMIT * 0.75)\<close>: the product is the float 24000.0 exactly, so the
  truncation is the integer quotient below.
\<close>

definition COMPRESSION_THRESHOLD :: nat where
  "COMPRESSION_THRESHOLD = (CHAR_LIMIT * 75) div 100"

text \<open>An exception raised by a call to the language model, with its \<open>str()\<close>.\<close>

datatype exn = Exn string

text \<open>
  The summarising model of \<open>compress_history\<close>. The prompt it is sent is text
  formatted from the messages to compress, the current plan and the preferences and
  from nothing else, so the model is a function of these three; it returns the
  summary or raises. Two calls need not be made with the same function.
\<close>

type_synonym summarizer =
  "Message list \<Rightarrow> Plan option \<Rightarrow> (string \<rightharpoonup> string) \<Rightarrow> exn + string"

definition compress_history ::
  "Message list \<Rightarrow> Plan option \<Rightarrow> (string \<rightharpoonup> string) \<Rightarrow> summarizer \<Rightarrow> exn + string"
where
  "compress_history msgs cur prefs llm = llm msgs cur prefs"

text \<open>
  The loop \<open>for msg in session.messages\<close> of \<open>build_context_messages\<close>, appending
  to \<open>context_parts\<close>; an entry \<open>{"role": r, "content": c}\<close> is the pair \<open>(r, c)\<close>.
\<close>

fun context_loop :: "Message list \<Rightarrow> (string \<times> string) list \<Rightarrow> (string \<times> string) list" where
  "context_loop [] context_parts = context_parts"
| "context_loop (msg # msgs) context_parts =
     (if is_blocked msg then context_loop msgs context_parts
      else context_loop msgs (context_parts @ [(role_value (role msg), content msg)]))"

definition build_context_messages :: "Session \<Rightarrow> (string \<times> string) list" where
  "build_context_messages s =
     context_loop (messages s)
       (case compressed_context s of
          None \<Rightarrow> []
        | Some c \<Rightarrow>
            if c \<noteq> [] then [(''system'', ''[Compressed prior context]'' @ CHR 0x0A # c)]
            else [])"

text \<open>
  \<open>total_chars\<close> as \<open>maybe_compress\<close> computes it before its first test.
\<close>

definition total_chars :: "Session \<Rightarrow> nat" where
  "total_chars s =
     (let total = sum_list (map (\<lambda>m. length (content m)) (messages s))
      in case compressed_context s of
           None \<Rightarrow> total
         | Some c \<Rightarrow> if c \<noteq> [] then total + length c else total)"

text \<open>
  \<open>maybe_compress\<close>. \<open>now\<close> is the clock reading stamped on the synthetic system
  message. \<open>session.messages[:-4]\<close> and \<open>session.messages[-4:]\<close> are taken only
  when there are more than 4 messages, where they are \<open>take (n - 4)\<close> and
  \<open>drop (n - 4)\<close>. A failing summary call propagates (\<open>Inl\<close>). The deep copy is the
  record update.
\<close>

definition maybe_compress :: "nat \<Rightarrow> summarizer \<Rightarrow> Session \<Rightarrow> exn + Session" where
  "maybe_compress now llm s =
     (if total_chars s < COMPRESSION_THRESHOLD then Inr s
      else
        let keep_recent = 4;
            n = length (messages s);
            messages_to_compress = (if n > keep_recent then take (n - keep_recent) (messages s) else []);
            recent_messages = (if n > keep_recent then drop (n - keep_recent) (messages s) else messages s)
        in if messages_to_compress = [] \<and> \<not> truthy_str (compressed_context s) then Inr s
           else
             let all_to_compress =
                   (case compressed_context s of
                      None \<Rightarrow> []
                    | Some c \<Rightarrow>
                        if c \<noteq> [] then
                          [\<lparr>role = SYSTEM, content = ''[Prior compressed context]: '' @ c,
                            timestamp = now, is_blocked = False\<rparr>]
                        else [])
                   @ messages_to_compress
             in case compress_history all_to_compress (current_plan s) (user_preferences s) llm of
                  Inl e \<Rightarrow> Inl e
                | Inr compressed \<Rightarrow>
                    Inr (s\<lparr>compressed_context := Some compressed, messages := recent_messages\<rparr>))"

section \<open>The turn pipeline (backend/agent.py)\<close>

record AgentState =
  session :: Session
  user_input :: string
  agent_response :: "AgentResponse option"
  error :: "string option"

text \<open>
  The deciding model of \<open>generate_node\<close>. Its prompt is the fixed system prompt
  followed by notes formatted from the current plan, the pending plan and the
  preferences, and by the entries of \<open>build_context_messages\<close>; the model is a
  function of these four. It returns a structured response, returns nothing, or raises.
\<close>

type_synonym decider =
  "Plan option \<Rightarrow> Plan option \<Rightarrow> (string \<rightharpoonup> string) \<Rightarrow> (string \<times> string) list
     \<Rightarrow> exn + AgentResponse option"

text \<open>
  What one turn takes from outside the program: the two model calls and the clock
  readings stamped on the user message, the synthetic summary message, the assistant
  message and the plan version.
\<close>

record Turn =
  summarize :: summarizer
  decide :: decider
  user_clock :: nat
  compress_clock :: nat
  reply_clock :: nat
  version_clock :: nat

definition preprocess_node :: "nat \<Rightarrow> nat \<Rightarrow> summarizer \<Rightarrow> AgentState \<Rightarrow> exn + AgentState" where
  "preprocess_node now now_c llm state =
     (let s = session state;
          txt = user_input state;
          s = s\<lparr>messages := messages s @
                 [\<lparr>role = USER, content = txt, timestamp = now, is_blocked = False\<rparr>]\<rparr>;
          s = s\<lparr>turn_count := turn_count s + 1\<rparr>;
          s = s\<lparr>user_preferences := extract_preferences txt (user_preferences s)\<rparr>
      in case maybe_compress now_c llm s of
           Inl e \<Rightarrow> Inl e
         | Inr s' \<Rightarrow> Inr (state\<lparr>session := s'\<rparr>))"

definition generate_node :: "decider \<Rightarrow> AgentState \<Rightarrow> AgentState" where
  "generate_node llm state =
     (let s = session state;
          context = build_context_messages s
      in case llm (current_plan s) (pending_plan s) (user_preferences s) context of
           Inr agent_resp \<Rightarrow> state\<lparr>agent_response := agent_resp, error := None\<rparr>
         | Inl (Exn e) \<Rightarrow> state\<lparr>error := Some e\<rparr>)"

definition FALLBACK_MESSAGE :: string where
  "FALLBACK_MESSAGE =
     ''I'' @ [CHR 0x27] @
     ''m sorry, I ran into an issue processing your request. Could you try rephrasing?''"

text \<open>
  \<open>postprocess_node\<close>. The test \<open>error or agent_resp is None\<close> is the \<open>None\<close>
  case together with the truthiness of \<open>error\<close>. Each branch of the
  \<open>if\<close>/\<open>elif\<close> chain also tests \<open>agent_resp.plan\<close>, a model object and so true
  whenever it is not \<open>None\<close>: the chain is entered only with a plan.
\<close>

definition postprocess_node :: "nat \<Rightarrow> nat \<Rightarrow> AgentState \<Rightarrow> AgentState" where
  "postprocess_node now now_v state =
     (let s = session state;
          degraded = state\<lparr>session := s\<lparr>messages := messages s @
                 [\<lparr>role = ASSISTANT, content = FALLBACK_MESSAGE, timestamp = now,
                   is_blocked = False\<rparr>]\<rparr>\<rparr>
      in case agent_response state of
           None \<Rightarrow> degraded
         | Some agent_resp \<Rightarrow>
             if truthy_str (error state) then degraded
             else
               let s = s\<lparr>messages := messages s @
                     [\<lparr>role = ASSISTANT, content = response_to_user agent_resp,
                       timestamp = now, is_blocked = False\<rparr>]\<rparr>;
                   s = (case plan agent_resp of
                          None \<Rightarrow> s
                        | Some p \<Rightarrow>
                            if action agent_resp = PROPOSE then s\<lparr>pending_plan := Some p\<rparr>
                            else if action agent_resp = CREATE then
                              s\<lparr>current_plan := Some p, pending_plan := None,
                                plan_versions := plan_versions s @
                                  [\<lparr>version = int (length (plan_versions s)) + 1, pv_plan = p,
                                    pv_change_summary =
                                      str_or (change_summary agent_resp) ''Plan confirmed and created.'',
                                    created_at = now_v\<rparr>]\<rparr>
                            else if action agent_resp = UPDATE then
                              s\<lparr>current_plan := Some p,
                                plan_versions := plan_versions s @
                                  [\<lparr>version = int (length (plan_versions s)) + 1, pv_plan = p,
                                    pv_change_summary =
                                      str_or (change_summary agent_resp) ''Plan updated.'',
                                    created_at = now_v\<rparr>]\<rparr>
                            else s);
                   s = (if truthy_str (conversation_summary agent_resp)
                        then s\<lparr>s_conversation_summary := conversation_summary agent_resp\<rparr>
                        else s)
               in state\<lparr>session := s\<rparr>)"

text \<open>
  \<open>run_agent\<close>: the graph preprocess, generate, postprocess on the initial state.
  It returns the session, the response and the error of the final state, or raises
  when the summary call of the first node does.
\<close>

definition run_agent ::
  "Turn \<Rightarrow> Session \<Rightarrow> string \<Rightarrow> exn + (Session \<times> AgentResponse option \<times> string option)"
where
  "run_agent env s txt =
     (let initial_state =
            \<lparr>session = s, user_input = txt, agent_response = None, error = None\<rparr>
      in case preprocess_node (user_clock env) (compress_clock env) (summarize env) initial_state of
           Inl e \<Rightarrow> Inl e
         | Inr st \<Rightarrow>
             let result = postprocess_node (reply_clock env) (version_clock env)
                            (generate_node (decide env) st)
             in Inr (session result, agent_response result, error result))"

section \<open>The chat endpoint (backend/server.py)\<close>

datatype http_error = HTTPException nat | Unhandled exn

definition DEGRADED_RESPONSE :: string where
  "DEGRADED_RESPONSE = ''Sorry, something went wrong. Please try again.''"

text \<open>\<open>len(plan_versions) if plan_versions else None\<close>.\<close>

definition version_count :: "Session \<Rightarrow> int option" where
  "version_count s =
     (if plan_versions s \<noteq> [] then Some (int (length (plan_versions s))) else None)"

text \<open>The two \<open>ChatResponse\<close> constructions of \<open>chat\<close>.\<close>

definition chat_response :: "Session \<Rightarrow> AgentResponse option \<Rightarrow> string option \<Rightarrow> ChatResponse" where
  "chat_response updated_session agent_resp err =
     (let degraded =
            \<lparr>response = DEGRADED_RESPONSE, cr_plan = current_plan updated_session,
              cr_action = NONE, cr_change_summary = None, cr_plan_summary = None,
              cr_conversation_summary = s_conversation_summary updated_session,
              cr_turn_count = turn_count updated_session,
              plan_version = version_count updated_session,
              awaiting_confirmation = False\<rparr>
      in case agent_resp of
           None \<Rightarrow> degraded
         | Some r \<Rightarrow>
             if truthy_str err then degraded
             else
               \<lparr>response = response_to_user r,
                 cr_plan = (if action r \<noteq> NONE then plan r else current_plan updated_session),
                 cr_action = action r, cr_change_summary = change_summary r,
                 cr_plan_summary = plan_summary r,
                 cr_conversation_summary = conversation_summary r,
                 cr_turn_count = turn_count updated_session,
                 plan_version = version_count updated_session,
                 awaiting_confirmation = (pending_plan updated_session \<noteq> None)\<rparr>)"

text \<open>
  \<open>chat\<close>. \<open>stored\<close> is what \<open>store.get(req.session_id)\<close> returned and \<open>uid\<close> the
  authenticated user's id. The result is the session handed to \<open>store.save\<close> and the
  response, or the HTTP error; an exception of the pipeline is not caught.
\<close>

definition chat ::
  "Session option \<Rightarrow> string \<Rightarrow> ChatRequest \<Rightarrow> Turn \<Rightarrow> http_error + (Session \<times> ChatResponse)"
where
  "chat stored uid req env =
     (case stored of
        None \<Rightarrow> Inl (HTTPException 404)
      | Some s \<Rightarrow>
          if user_id s \<noteq> Some uid then Inl (HTTPException 403)
          else
            (case run_agent env s (message req) of
               Inl e \<Rightarrow> Inl (Unhandled e)
             | Inr (updated_session, agent_resp, err) \<Rightarrow>
                 Inr (updated_session, chat_response updated_session agent_resp err)))"

text \<open>\<open>get_history\<close>: one entry (role, content, timestamp) per message of the log.\<close>

definition get_history ::
  "Session option \<Rightarrow> string \<Rightarrow> http_error + (string \<times> string \<times> nat) list"
where
  "get_history stored uid =
     (case stored of
        None \<Rightarrow> Inl (HTTPException 404)
      | Some s \<Rightarrow>
          if user_id s \<noteq> Some uid then Inl (HTTPException 403)
          else Inr (map (\<lambda>m. (role_value (role m), content m, timestamp m)) (messages s)))"

text \<open>
  A sequence of chat turns on one session, each with its request text and its outside
  inputs; a turn that raises ends the run.
\<close>

fun run_turns :: "(string \<times> Turn) list \<Rightarrow> Session \<Rightarrow> exn + Session" where
  "run_turns [] s = Inr s"
| "run_turns ((txt, env) # turns) s =
     (case run_agent env s txt of
        Inl e \<Rightarrow> Inl e
      | Inr (s', agent_resp, err) \<Rightarrow> run_turns turns s')"

text \<open>
  What \<open>generate_node\<close> records for an outcome of the decision call: the response
  (none when the call raised) and the error text (none when it returned).
\<close>

fun outcome_response :: "exn + AgentResponse option \<Rightarrow> AgentResponse option" where
  "outcome_response (Inl e) = None"
| "outcome_response (Inr r) = r"

fun outcome_error :: "exn + AgentResponse option \<Rightarrow> string option" where
  "outcome_error (Inl (Exn e)) = Some e"
| "outcome_error (Inr r) = None"

text \<open>
  The decisions of a run that append a plan version: a response that was applied (no
  error) with action CREATE or UPDATE and a plan, counted along the run.
\<close>

definition appends_version :: "AgentResponse option \<Rightarrow> string option \<Rightarrow> bool" where
  "appends_version agent_resp err =
     (case agent_resp of
        None \<Rightarrow> False
      | Some r \<Rightarrow>
          \<not> truthy_str err \<and> (action r = CREATE \<or> action r = UPDATE) \<and> plan r \<noteq> None)"

fun applied_count :: "(string \<times> Turn) list \<Rightarrow> Session \<Rightarrow> nat" where
  "applied_count [] s = 0"
| "applied_count ((txt, env) # turns) s =
     (case run_agent env s txt of
        Inl e \<Rightarrow> 0
      | Inr (s', agent_resp, err) \<Rightarrow>
          (if appends_version agent_resp err then 1 else 0) + applied_count turns s')"

text \<open>The version numbers of a log are 1, 2, ... in order.\<close>

definition dense_versions :: "PlanVersion list \<Rightarrow> bool" where
  "dense_versions pvs = (map version pvs = map (\<lambda>i. int i + 1) [0..<length pvs])"

section \<open>Example inputs\<close>

definition ex_plan :: Plan where
  "ex_plan =
     \<lparr>title = ''Lisbon trip'', overview = ''Three days in Lisbon'',
      steps = [\<lparr>step_id = ''step-1'', step_title = ''Book flights'',
                description = ''Find and book return flights'', status = PENDING\<rparr>]\<rparr>"

definition ex_plan_revised :: Plan where
  "ex_plan_revised =
     \<lparr>title = ''Lisbon trip'', overview = ''Three days in Lisbon'',
      steps = [\<lparr>step_id = ''step-1'', step_title = ''Book flights'',
                description = ''Find and book return flights'', status = COMPLETED\<rparr>]\<rparr>"

definition ex_response :: "ActionType \<Rightarrow> Plan option \<Rightarrow> AgentResponse" where
  "ex_response a p =
     \<lparr>thought = ''reasoning'', response_to_user = ''Here is the plan.'', action = a,
      plan = p, change_summary = None, plan_summary = Some ''One step.'',
      conversation_summary = Some ''The user plans a trip.''\<rparr>"

definition ex_session :: Session where
  "ex_session =
     (new_session ''s1'' ''u1'')\<lparr>current_plan := Some ex_plan, pending_plan := Some ex_plan\<rparr>"

definition ex_state :: "AgentResponse \<Rightarrow> AgentState" where
  "ex_state r =
     \<lparr>session = ex_session, user_input = ''go ahead'', agent_response = Some r, error = None\<rparr>"

definition const_summarizer :: "string \<Rightarrow> summarizer" where
  "const_summarizer c = (\<lambda>msgs cur prefs. Inr c)"

definition failing_summarizer :: summarizer where
  "failing_summarizer = (\<lambda>msgs cur prefs. Inl (Exn ''timeout''))"

definition ex_turn :: "exn + AgentResponse option \<Rightarrow> Turn" where
  "ex_turn d =
     \<lparr>summarize = const_summarizer ''digest'', decide = (\<lambda>cur pend prefs ctx. d),
      user_clock = 1, compress_clock = 2, reply_clock = 3, version_clock = 4\<rparr>"

definition ex_message :: "MessageRole \<Rightarrow> string \<Rightarrow> bool \<Rightarrow> Message" where
  "ex_message r c b = \<lparr>role = r, content = c, timestamp = 0, is_blocked = b\<rparr>"

definition long_message :: "nat \<Rightarrow> Message" where
  "long_message n = ex_message USER (replicate n CHR ''a'') False"

definition one_long_message_session :: Session where
  "one_long_message_session = (new_session ''s1'' ''u1'')\<lparr>messages := [long_message 24000]\<rparr>"

definition five_message_session :: Session where
  "five_message_session =
     (new_session ''s1'' ''u1'')\<lparr>messages := replicate 5 (long_message 5999)\<rparr>"

definition blocked_session :: Session where
  "blocked_session =
     (new_session ''s1'' ''u1'')
       \<lparr>messages := [ex_message USER ''hello'' False, ex_message USER ''secret'' True,
                      ex_message ASSISTANT ''hi'' False],
        compressed_context := Some ''digest''\<rparr>"

definition five_message_compressed :: Session where
  "five_message_compressed =
     five_message_session
       \<lparr>compressed_context := Some ''ABCD'', messages := replicate 4 (long_message 5999)\<rparr>"

definition compressible_session :: Session where
  "compressible_session =
     (new_session ''s1'' ''u1'')
       \<lparr>messages := long_message 24000 # replicate 4 (long_message 10)\<rparr>"

definition compressible_compressed :: Session where
  "compressible_compressed =
     compressible_session
       \<lparr>compressed_context := Some ''digest'', messages := replicate 4 (long_message 10)\<rparr>"

definition ex_turns :: "(string \<times> Turn) list" where
  "ex_turns =
     [(''hello'', ex_turn (Inr (Some (ex_response PROPOSE (Some ex_plan))))),
      (''hello'', ex_turn (Inl (Exn ''timeout''))),
      (''go ahead'', ex_turn (Inr (Some (ex_response CREATE (Some ex_plan))))),
      (''go ahead'', ex_turn (Inr (Some (ex_response UPDATE (Some ex_plan_revised))))),
      (''go ahead'', ex_turn (Inr (Some (ex_response UPDATE None))))]"

definition ex_request :: ChatRequest where
  "ex_request = \<lparr>req_session_id = ''s1'', message = ''hello''\<rparr>"

definition first_chat :: "http_error + (Session \<times> ChatResponse)" where
  "first_chat =
     chat (Some (new_session ''s1'' ''u1'')) ''u1'' ex_request
       (ex_turn (Inr (Some (ex_response NONE None))))"

definition degraded_chat :: "http_error + (Session \<times> ChatResponse)" where
  "degraded_chat =
     chat (Some ex_session) ''u1'' ex_request (ex_turn (Inl (Exn ''connection reset'')))"

definition confirming_chat :: "http_error + (Session \<times> ChatResponse)" where
  "confirming_chat =
     chat (Some ex_session) ''u1'' ex_request
       (ex_turn (Inr (Some (ex_response CREATE (Some ex_plan_revised)))))"

section \<open>Context assembly\<close>

lemma threshold_value: "COMPRESSION_THRESHOLD = 24000"
  by (simp add: COMPRESSION_THRESHOLD_def CHAR_LIMIT_def TOKEN_LIMIT_def CHARS_PER_TOKEN_def)

lemma context_loop_eq:
  "context_loop msgs parts =
     parts @ map (\<lambda>m. (role_value (role m), content m)) (filter (\<lambda>m. \<not> is_blocked m) msgs)"
  by (induction msgs arbitrary: parts) simp_all

text \<open>
  Claim C7. The assembled context is one system entry for the compressed context when
  the session has one (a non-empty string: \<open>None\<close> and the empty string both fail the
  test \<open>if session.compressed_context\<close> and give no entry), followed by the messages
  of the session in their order, without exactly the blocked ones. Assembly returns a
  list and leaves the session as it is, and reading the history of the session returns
  one entry for every message of the log, blocked or not.
\<close>

theorem build_context_messages_order:
  "(\<forall>c. compressed_context s = Some c \<and> c \<noteq> [] \<longrightarrow>
      build_context_messages s =
        (''system'', ''[Compressed prior context]'' @ CHR 0x0A # c) #
        map (\<lambda>m. (role_value (role m), content m)) (filter (\<lambda>m. \<not> is_blocked m) (messages s)))
   \<and> (\<not> truthy_str (compressed_context s) \<longrightarrow>
      build_context_messages s =
        map (\<lambda>m. (role_value (role m), content m)) (filter (\<lambda>m. \<not> is_blocked m) (messages s)))
   \<and> (user_id s = Some uid \<longrightarrow>
      get_history (Some s) uid =
        Inr (map (\<lambda>m. (role_value (role m), content m, timestamp m)) (messages s)))"
proof (intro conjI allI impI)
  fix c assume "compressed_context s = Some c \<and> c \<noteq> []"
  then show "build_context_messages s =
        (''system'', ''[Compressed prior context]'' @ CHR 0x0A # c) #
        map (\<lambda>m. (role_value (role m), content m)) (filter (\<lambda>m. \<not> is_blocked m) (messages s))"
    by (simp add: build_context_messages_def context_loop_eq)
next
  assume "\<not> truthy_str (compressed_context s)"
  then show "build_context_messages s =
        map (\<lambda>m. (role_value (role m), content m)) (filter (\<lambda>m. \<not> is_blocked m) (messages s))"
    by (cases "compressed_context s") (simp_all add: build_context_messages_def context_loop_eq)
next
  assume "user_id s = Some uid"
  then show "get_history (Some s) uid =
        Inr (map (\<lambda>m. (role_value (role m), content m, timestamp m)) (messages s))"
    by (simp add: get_history_def)
qed

theorem build_context_messages_order_witness:
  "build_context_messages blocked_session =
     [(''system'', ''[Compressed prior context]'' @ CHR 0x0A # ''digest''),
      (''user'', ''hello''), (''assistant'', ''hi'')]
   \<and> build_context_messages (blocked_session\<lparr>compressed_context := Some []\<rparr>) =
     [(''user'', ''hello''), (''assistant'', ''hi'')]
   \<and> get_history (Some blocked_session) ''u1'' =
     Inr [(''user'', ''hello'', 0), (''user'', ''secret'', 0), (''assistant'', ''hi'', 0)]"
  using build_context_messages_order [of blocked_session "''u1''"]
    build_context_messages_order [of "blocked_session\<lparr>compressed_context := Some []\<rparr>" "''u1''"]
  by (simp add: blocked_session_def new_session_def ex_message_def)

section \<open>Preference extraction\<close>

lemma matching_values_Nil: "matching_values lower [] = []"
  by (simp add: matching_values_def)

lemma matching_values_Cons:
  "matching_values lower ((w, v) # kws) =
     (if str_contains w lower then v # matching_values lower kws
      else matching_values lower kws)"
  by (simp add: matching_values_def)

lemma scan_keywords_last:
  "scan_keywords lower k kws upd =
     (case last_match lower kws of None \<Rightarrow> upd | Some v \<Rightarrow> upd(k \<mapsto> v))"
proof (induction kws arbitrary: upd)
  case Nil
  show ?case by (simp add: last_match_def matching_values_Nil)
next
  case (Cons kw kws)
  obtain w v where kw: "kw = (w, v)" by (cases kw)
  show ?case
  proof (cases "str_contains w lower")
    case False
    then show ?thesis
      unfolding kw by (simp add: Cons.IH last_match_def matching_values_Cons)
  next
    case True
    show ?thesis
    proof (cases "matching_values lower kws = []")
      case e: True
      show ?thesis
        unfolding kw using True e
        by (simp add: Cons.IH last_match_def matching_values_Cons)
    next
      case ne: False
      show ?thesis
        unfolding kw using True ne
        by (simp add: Cons.IH last_match_def matching_values_Cons)
    qed
  qed
qed

lemma scan_categories_other:
  "k \<notin> fst ` set cats \<Longrightarrow> scan_categories lower cats upd k = upd k"
  by (induction cats arbitrary: upd) (auto simp: scan_keywords_last split: option.splits)

lemma scan_categories_key:
  "distinct (map fst cats) \<Longrightarrow> (k, kws) \<in> set cats \<Longrightarrow>
   scan_categories lower cats upd k =
     (case last_match lower kws of None \<Rightarrow> upd k | Some v \<Rightarrow> Some v)"
proof (induction cats arbitrary: upd)
  case Nil
  then show ?case by simp
next
  case (Cons c cats)
  obtain k' kws' where c: "c = (k', kws')" by (cases c)
  show ?case
  proof (cases "k' = k")
    case True
    with Cons.prems c have "kws' = kws" and "k \<notin> fst ` set cats"
      by (auto simp: image_iff)
    then show ?thesis
      using True c by (simp add: scan_categories_other scan_keywords_last split: option.splits)
  next
    case False
    with Cons.prems c have "(k, kws) \<in> set cats" "distinct (map fst cats)" by auto
    then show ?thesis
      using False c Cons.IH by (simp add: scan_keywords_last split: option.splits)
  qed
qed

lemma scan_categories_nomatch:
  "\<forall>c \<in> set cats. matching_values lower (snd c) = [] \<Longrightarrow> scan_categories lower cats upd = upd"
  by (induction cats arbitrary: upd) (auto simp: scan_keywords_last last_match_def)

lemma matching_values_empty:
  "(matching_values lower kws = []) = (\<forall>kw \<in> set kws. \<not> str_contains (fst kw) lower)"
  by (simp add: matching_values_def filter_empty_conv)

lemma catalog_distinct: "distinct (map fst PREFERENCE_KEYWORDS)"
  by (simp add: PREFERENCE_KEYWORDS_def)

text \<open>
  Claim C8. \<open>extract_preferences\<close> returns a new mapping (the model passes maps by
  value, so \<open>existing\<close> is never written). For each category of the catalog the value
  of the last keyword of that category, in the catalog's scan order, that occurs in
  the lower-cased text is the final value, and a category with no keyword in the text
  keeps its prior value; keys outside the catalog are left alone; and when no keyword
  occurs at all the result equals \<open>existing\<close>.
\<close>

theorem extract_preferences_last_match_wins:
  "(\<forall>(k, kws) \<in> set PREFERENCE_KEYWORDS.
      extract_preferences text existing k =
        (case last_match (str_lower text) kws of None \<Rightarrow> existing k | Some v \<Rightarrow> Some v))
   \<and> (\<forall>k. k \<notin> fst ` set PREFERENCE_KEYWORDS \<longrightarrow>
        extract_preferences text existing k = existing k)
   \<and> ((\<forall>(k, kws) \<in> set PREFERENCE_KEYWORDS. \<forall>(w, v) \<in> set kws.
          \<not> str_contains w (str_lower text)) \<longrightarrow>
        extract_preferences text existing = existing)"
proof (intro conjI)
  show "\<forall>(k, kws) \<in> set PREFERENCE_KEYWORDS.
      extract_preferences text existing k =
        (case last_match (str_lower text) kws of None \<Rightarrow> existing k | Some v \<Rightarrow> Some v)"
    using scan_categories_key [OF catalog_distinct]
    by (auto simp: extract_preferences_def)
  show "\<forall>k. k \<notin> fst ` set PREFERENCE_KEYWORDS \<longrightarrow>
        extract_preferences text existing k = existing k"
    by (simp add: extract_preferences_def scan_categories_other)
  show "(\<forall>(k, kws) \<in> set PREFERENCE_KEYWORDS. \<forall>(w, v) \<in> set kws.
          \<not> str_contains w (str_lower text)) \<longrightarrow>
        extract_preferences text existing = existing"
  proof
    assume h: "\<forall>(k, kws) \<in> set PREFERENCE_KEYWORDS. \<forall>(w, v) \<in> set kws.
          \<not> str_contains w (str_lower text)"
    have "\<forall>c \<in> set PREFERENCE_KEYWORDS. matching_values (str_lower text) (snd c) = []"
      using h by (fastforce simp: matching_values_empty)
    then show "extract_preferences text existing = existing"
      by (simp add: extract_preferences_def scan_categories_nomatch)
  qed
qed

lemma detail_match:
  "last_match (str_lower ''Keep it Brief but DETAILED'')
     [(''detailed'', ''detailed''), (''brief'', ''brief''), (''concise'', ''brief''),
      (''verbose'', ''detailed''), (''short'', ''brief'')] = Some ''brief''"
  by code_simp

lemma tone_match:
  "last_match (str_lower ''Keep it Brief but DETAILED'')
     [(''formal'', ''formal''), (''casual'', ''casual''), (''professional'', ''formal''),
      (''friendly'', ''casual'')] = None"
  by code_simp

lemma hello_no_match:
  "\<forall>(k, kws) \<in> set PREFERENCE_KEYWORDS. \<forall>(w, v) \<in> set kws.
     \<not> str_contains w (str_lower ''Hello there'')"
  by code_simp

theorem extract_preferences_last_match_wins_witness:
  "extract_preferences ''Keep it Brief but DETAILED'' [''tone'' \<mapsto> ''casual''] ''detail_level''
     = Some ''brief''
   \<and> extract_preferences ''Keep it Brief but DETAILED'' [''tone'' \<mapsto> ''casual''] ''tone''
     = Some ''casual''
   \<and> extract_preferences ''Keep it Brief but DETAILED'' [''tone'' \<mapsto> ''casual''] ''language''
     = None
   \<and> extract_preferences ''Hello there'' [''tone'' \<mapsto> ''casual''] = [''tone'' \<mapsto> ''casual'']"
proof -
  note a = extract_preferences_last_match_wins
    [of "''Keep it Brief but DETAILED''" "[''tone'' \<mapsto> ''casual'']"]
  note b = extract_preferences_last_match_wins
    [of "''Hello there''" "[''tone'' \<mapsto> ''casual'']"]
  have 1: "extract_preferences ''Keep it Brief but DETAILED'' [''tone'' \<mapsto> ''casual'']
      ''detail_level'' = Some ''brief''"
    using a detail_match by (simp add: PREFERENCE_KEYWORDS_def)
  have 2: "extract_preferences ''Keep it Brief but DETAILED'' [''tone'' \<mapsto> ''casual'']
      ''tone'' = Some ''casual''"
    using a tone_match by (simp add: PREFERENCE_KEYWORDS_def)
  have 3: "extract_preferences ''Keep it Brief but DETAILED'' [''tone'' \<mapsto> ''casual'']
      ''language'' = None"
    using a by (simp add: PREFERENCE_KEYWORDS_def)
  have 4: "extract_preferences ''Hello there'' [''tone'' \<mapsto> ''casual''] = [''tone'' \<mapsto> ''casual'']"
    using b hello_no_match by blast
  from 1 2 3 4 show ?thesis by blast
qed

section \<open>Applying a decision\<close>

text \<open>
  Claim C1. When a structured decision that carries a plan is applied, the action table
  holds: a PROPOSE sets \<open>pending_plan\<close> to the decision's plan and leaves
  \<open>current_plan\<close> as it was; a CREATE sets \<open>current_plan\<close> to the decision's plan
  and clears \<open>pending_plan\<close>; an UPDATE sets \<open>current_plan\<close> to the decision's plan
  and leaves \<open>pending_plan\<close> as it was.
\<close>

theorem postprocess_action_table:
  assumes "agent_response state = Some r" and "\<not> truthy_str (error state)"
    and "plan r = Some p"
  shows "(action r = PROPOSE \<longrightarrow>
            pending_plan (session (postprocess_node now now_v state)) = Some p
          \<and> current_plan (session (postprocess_node now now_v state)) = current_plan (session state))
       \<and> (action r = CREATE \<longrightarrow>
            current_plan (session (postprocess_node now now_v state)) = Some p
          \<and> pending_plan (session (postprocess_node now now_v state)) = None)
       \<and> (action r = UPDATE \<longrightarrow>
            current_plan (session (postprocess_node now now_v state)) = Some p
          \<and> pending_plan (session (postprocess_node now now_v state)) = pending_plan (session state))"
  using assms by (simp add: postprocess_node_def Let_def)

theorem postprocess_action_table_witness:
  "pending_plan (session (postprocess_node 3 4 (ex_state (ex_response PROPOSE (Some ex_plan_revised)))))
     = Some ex_plan_revised
   \<and> current_plan (session (postprocess_node 3 4 (ex_state (ex_response PROPOSE (Some ex_plan_revised)))))
     = Some ex_plan
   \<and> current_plan (session (postprocess_node 3 4 (ex_state (ex_response CREATE (Some ex_plan_revised)))))
     = Some ex_plan_revised
   \<and> pending_plan (session (postprocess_node 3 4 (ex_state (ex_response CREATE (Some ex_plan_revised)))))
     = None
   \<and> current_plan (session (postprocess_node 3 4 (ex_state (ex_response UPDATE (Some ex_plan_revised)))))
     = Some ex_plan_revised
   \<and> pending_plan (session (postprocess_node 3 4 (ex_state (ex_response UPDATE (Some ex_plan_revised)))))
     = Some ex_plan"
  using postprocess_action_table
          [of "ex_state (ex_response PROPOSE (Some ex_plan_revised))"
              "ex_response PROPOSE (Some ex_plan_revised)" ex_plan_revised 3 4]
        postprocess_action_table
          [of "ex_state (ex_response CREATE (Some ex_plan_revised))"
              "ex_response CREATE (Some ex_plan_revised)" ex_plan_revised 3 4]
        postprocess_action_table
          [of "ex_state (ex_response UPDATE (Some ex_plan_revised))"
              "ex_response UPDATE (Some ex_plan_revised)" ex_plan_revised 3 4]
  by (simp add: ex_state_def ex_response_def ex_session_def new_session_def)

text \<open>
  Claim C10. A decision whose action is PROPOSE, CREATE or UPDATE but whose plan is
  absent is applied without an error and changes no plan state: the session afterwards
  is the session before with the assistant message appended and the conversation
  summary overwritten when the decision has a non-empty one, so \<open>current_plan\<close>,
  \<open>pending_plan\<close> and \<open>plan_versions\<close> are unchanged.
\<close>

theorem postprocess_missing_plan:
  assumes "agent_response state = Some r" and "\<not> truthy_str (error state)"
    and "action r = PROPOSE \<or> action r = CREATE \<or> action r = UPDATE"
    and "plan r = None"
  shows "session (postprocess_node now now_v state) =
           (session state)
             \<lparr>messages := messages (session state) @
                [\<lparr>role = ASSISTANT, content = response_to_user r, timestamp = now,
                  is_blocked = False\<rparr>],
              s_conversation_summary :=
                (if truthy_str (conversation_summary r) then conversation_summary r
                 else s_conversation_summary (session state))\<rparr>
       \<and> current_plan (session (postprocess_node now now_v state)) = current_plan (session state)
       \<and> pending_plan (session (postprocess_node now now_v state)) = pending_plan (session state)
       \<and> plan_versions (session (postprocess_node now now_v state)) = plan_versions (session state)"
  using assms by (simp add: postprocess_node_def Let_def)

theorem postprocess_missing_plan_witness:
  "current_plan (session (postprocess_node 3 4 (ex_state (ex_response CREATE None)))) = Some ex_plan
   \<and> pending_plan (session (postprocess_node 3 4 (ex_state (ex_response CREATE None)))) = Some ex_plan
   \<and> plan_versions (session (postprocess_node 3 4 (ex_state (ex_response CREATE None)))) = []
   \<and> map content (messages (session (postprocess_node 3 4 (ex_state (ex_response CREATE None)))))
       = [''Here is the plan.'']
   \<and> s_conversation_summary (session (postprocess_node 3 4 (ex_state (ex_response CREATE None))))
       = Some ''The user plans a trip.''"
  using postprocess_missing_plan
          [of "ex_state (ex_response CREATE None)" "ex_response CREATE None" 3 4]
  by (simp add: ex_state_def ex_response_def ex_session_def new_session_def)

section \<open>Context compression\<close>

lemma prior_context_empty:
  "\<not> truthy_str cc \<Longrightarrow>
   (case cc of None \<Rightarrow> []
    | Some c \<Rightarrow> if c \<noteq> [] then
        [\<lparr>role = SYSTEM, content = ''[Prior compressed context]: '' @ c,
          timestamp = now, is_blocked = False\<rparr>] else []) = []"
  by (cases cc) simp_all

lemma total_chars_one_long: "total_chars one_long_message_session = 24000"
  by (simp add: total_chars_def one_long_message_session_def new_session_def
      long_message_def ex_message_def)

text \<open>
  Claim C5, as stated, fails: a session whose only message has 24000 characters and
  which has no compressed context reaches the threshold, but there is nothing older
  than the retention window, so \<open>maybe_compress\<close> returns it unchanged: the
  compressed context stays absent and the log keeps its single message.
\<close>

theorem maybe_compress_short_log_counterexample:
  "24000 \<le> total_chars one_long_message_session
   \<and> compressed_context one_long_message_session = None
   \<and> maybe_compress 2 (const_summarizer ''digest'') one_long_message_session
       = Inr one_long_message_session
   \<and> \<not> truthy_str (compressed_context one_long_message_session)
   \<and> length (messages one_long_message_session) \<noteq> 4"
  by (simp add: total_chars_one_long maybe_compress_def threshold_value Let_def)
     (simp add: one_long_message_session_def new_session_def)

text \<open>
  Claim C5, amended. For every session whose messages total at least 24000 characters,
  which has no prior compressed context and which holds more than 4 messages, when the
  summary call returns a summary, \<open>maybe_compress\<close> fires: the compressed context
  becomes that summary (non-empty exactly when the summary is) and the log becomes its
  last 4 messages.
\<close>

theorem maybe_compress_fires:
  assumes "24000 \<le> total_chars s" and "\<not> truthy_str (compressed_context s)"
    and "4 < length (messages s)"
    and "llm (take (length (messages s) - 4) (messages s)) (current_plan s) (user_preferences s)
           = Inr summary"
  shows "maybe_compress now llm s =
           Inr (s\<lparr>compressed_context := Some summary,
                  messages := drop (length (messages s) - 4) (messages s)\<rparr>)
       \<and> length (drop (length (messages s) - 4) (messages s)) = 4
       \<and> truthy_str (Some summary) = (summary \<noteq> [])"
proof -
  have ne: "take (length (messages s) - 4) (messages s) \<noteq> []"
    using assms(3) by auto
  show ?thesis
    using assms ne prior_context_empty [OF assms(2)]
    by (simp add: maybe_compress_def threshold_value Let_def compress_history_def)
qed

lemma total_chars_compressible: "total_chars compressible_session = 24040"
  by (simp add: total_chars_def compressible_session_def new_session_def
      long_message_def ex_message_def sum_list_replicate)

theorem maybe_compress_fires_witness:
  "maybe_compress 2 (const_summarizer ''digest'') compressible_session
     = Inr compressible_compressed
   \<and> compressed_context compressible_compressed = Some ''digest''
   \<and> length (messages compressible_compressed) = 4"
  using maybe_compress_fires
    [of compressible_session "const_summarizer ''digest''" "''digest''" 2]
  by (simp add: total_chars_compressible)
     (simp add: compressible_session_def compressible_compressed_def new_session_def
        const_summarizer_def)

lemma total_chars_five: "total_chars five_message_session = 29995"
  by (simp add: total_chars_def five_message_session_def new_session_def
      long_message_def ex_message_def sum_list_replicate)

lemma total_chars_five_compressed: "total_chars five_message_compressed = 24000"
  by (simp add: total_chars_def five_message_compressed_def five_message_session_def
      new_session_def long_message_def ex_message_def sum_list_replicate)

text \<open>
  Claim C6, as stated, fails. Five messages of 5999 characters make compression fire;
  with the four-character digest the compressed session totals exactly 24000
  characters, the threshold. Run again at once, \<open>maybe_compress\<close> does not return
  its input: it calls the summarizer on the prior digest and stores the new digest
  (and raises when that call does).
\<close>

theorem maybe_compress_rerun_counterexample:
  "maybe_compress 2 (const_summarizer ''ABCD'') five_message_session
     = Inr five_message_compressed
   \<and> five_message_compressed \<noteq> five_message_session
   \<and> total_chars five_message_compressed = COMPRESSION_THRESHOLD
   \<and> maybe_compress 2 (const_summarizer ''second digest'') five_message_compressed
       = Inr (five_message_compressed\<lparr>compressed_context := Some ''second digest''\<rparr>)
   \<and> five_message_compressed\<lparr>compressed_context := Some ''second digest''\<rparr>
       \<noteq> five_message_compressed
   \<and> maybe_compress 2 failing_summarizer five_message_compressed = Inl (Exn ''timeout'')"
proof -
  have 1: "maybe_compress 2 (const_summarizer ''ABCD'') five_message_session
     = Inr five_message_compressed"
    by (simp add: maybe_compress_def total_chars_five threshold_value Let_def
          compress_history_def const_summarizer_def)
       (simp add: five_message_compressed_def five_message_session_def new_session_def)
  have 2: "five_message_compressed \<noteq> five_message_session"
    by (simp add: five_message_compressed_def five_message_session_def new_session_def)
  have 3: "total_chars five_message_compressed = COMPRESSION_THRESHOLD"
    by (simp add: total_chars_five_compressed threshold_value)
  have 4: "maybe_compress 2 (const_summarizer ''second digest'') five_message_compressed
       = Inr (five_message_compressed\<lparr>compressed_context := Some ''second digest''\<rparr>)"
    by (simp add: maybe_compress_def total_chars_five_compressed threshold_value Let_def
          compress_history_def const_summarizer_def)
       (simp add: five_message_compressed_def five_message_session_def new_session_def)
  have 5: "five_message_compressed\<lparr>compressed_context := Some ''second digest''\<rparr>
       \<noteq> five_message_compressed"
    by (simp add: five_message_compressed_def five_message_session_def new_session_def)
  have 6: "maybe_compress 2 failing_summarizer five_message_compressed = Inl (Exn ''timeout'')"
    by (simp add: maybe_compress_def total_chars_five_compressed threshold_value Let_def
          compress_history_def failing_summarizer_def)
       (simp add: five_message_compressed_def five_message_session_def new_session_def)
  from 1 2 3 4 5 6 show ?thesis by blast
qed

lemma maybe_compress_result:
  assumes "COMPRESSION_THRESHOLD \<le> total_chars s"
    and "4 < length (messages s) \<or> truthy_str (compressed_context s)"
    and "maybe_compress now llm s = Inr s'"
  shows "\<exists>c. compressed_context s' = Some c \<and> length (messages s') \<le> 4"
  using assms
  by (auto simp: maybe_compress_def Let_def split: if_splits sum.splits)

lemma maybe_compress_below:
  "total_chars s < COMPRESSION_THRESHOLD \<Longrightarrow> maybe_compress now llm s = Inr s"
  by (simp add: maybe_compress_def)

lemma maybe_compress_nothing:
  "length (messages s) \<le> 4 \<Longrightarrow> \<not> truthy_str (compressed_context s) \<Longrightarrow>
   maybe_compress now llm s = Inr s"
  by (simp add: maybe_compress_def Let_def)

lemma maybe_compress_again:
  "COMPRESSION_THRESHOLD \<le> total_chars s \<Longrightarrow> truthy_str (compressed_context s) \<Longrightarrow>
   maybe_compress now (\<lambda>msgs cur prefs. Inl e) s = Inl e"
  by (simp add: maybe_compress_def Let_def compress_history_def)

lemma maybe_compress_resummarise:
  assumes "COMPRESSION_THRESHOLD \<le> total_chars s" and "compressed_context s = Some c"
    and "c \<noteq> []" and "length (messages s) \<le> 4"
  shows "maybe_compress now llm s =
     (case llm [\<lparr>role = SYSTEM, content = ''[Prior compressed context]: '' @ c,
                  timestamp = now, is_blocked = False\<rparr>]
             (current_plan s) (user_preferences s) of
        Inl e \<Rightarrow> Inl e
      | Inr c' \<Rightarrow> Inr (s\<lparr>compressed_context := Some c'\<rparr>))"
proof (cases "llm [\<lparr>role = SYSTEM, content = ''[Prior compressed context]: '' @ c,
                  timestamp = now, is_blocked = False\<rparr>]
             (current_plan s) (user_preferences s)")
  case (Inl e)
  with assms show ?thesis
    by (simp add: maybe_compress_def Let_def compress_history_def)
next
  case (Inr c')
  with assms show ?thesis
    by (simp add: maybe_compress_def Let_def compress_history_def)
qed

lemma five_message_fires:
  "maybe_compress 2 (const_summarizer ''ABCD'') five_message_session = Inr five_message_compressed"
  by (simp add: maybe_compress_def total_chars_five threshold_value Let_def
        compress_history_def const_summarizer_def)
     (simp add: five_message_compressed_def five_message_session_def new_session_def)

lemma compressible_fires:
  "maybe_compress 2 (const_summarizer ''digest'') compressible_session
     = Inr compressible_compressed"
  by (simp add: maybe_compress_def total_chars_compressible threshold_value Let_def
        compress_history_def const_summarizer_def)
     (simp add: compressible_compressed_def compressible_session_def new_session_def)

text \<open>
  Claim C6, amended. After \<open>maybe_compress\<close> has fired, running it again at once is
  a no-op (whatever the summarizer and the clock: the summarizer is not called)
  exactly when the retained messages and the new digest total fewer than 24000
  characters or the new digest is empty. Otherwise, and so also when the total is
  exactly the threshold, it summarizes again: it calls the summarizer on the prior
  digest alone and returns the session with \<open>compressed_context\<close> replaced by the
  new summary and the messages as they were, or raises when that call does.
\<close>

theorem maybe_compress_rerun:
  assumes "COMPRESSION_THRESHOLD \<le> total_chars s"
    and "4 < length (messages s) \<or> truthy_str (compressed_context s)"
    and "maybe_compress now llm s = Inr s'"
  shows "((\<forall>now' llm'. maybe_compress now' llm' s' = Inr s')
           = (total_chars s' < COMPRESSION_THRESHOLD \<or> compressed_context s' = Some []))
     \<and> (\<exists>c. compressed_context s' = Some c
          \<and> (\<not> (total_chars s' < COMPRESSION_THRESHOLD \<or> c = []) \<longrightarrow>
               (\<forall>now' llm'. maybe_compress now' llm' s' =
                  (case llm' [\<lparr>role = SYSTEM, content = ''[Prior compressed context]: '' @ c,
                               timestamp = now', is_blocked = False\<rparr>]
                          (current_plan s') (user_preferences s') of
                     Inl e \<Rightarrow> Inl e
                   | Inr c' \<Rightarrow> Inr (s'\<lparr>compressed_context := Some c'\<rparr>)))))"
proof -
  obtain c where c: "compressed_context s' = Some c" and len: "length (messages s') \<le> 4"
    using maybe_compress_result [OF assms] by blast
  have again: "\<forall>now' llm'. maybe_compress now' llm' s' =
                  (case llm' [\<lparr>role = SYSTEM, content = ''[Prior compressed context]: '' @ c,
                               timestamp = now', is_blocked = False\<rparr>]
                          (current_plan s') (user_preferences s') of
                     Inl e \<Rightarrow> Inl e
                   | Inr c' \<Rightarrow> Inr (s'\<lparr>compressed_context := Some c'\<rparr>))"
    if "\<not> (total_chars s' < COMPRESSION_THRESHOLD \<or> c = [])"
  proof -
    from that have ge: "COMPRESSION_THRESHOLD \<le> total_chars s'" and ne: "c \<noteq> []"
      by simp_all
    from maybe_compress_resummarise [OF ge c ne len] show ?thesis by blast
  qed
  have noop: "(\<forall>now' llm'. maybe_compress now' llm' s' = Inr s')
           = (total_chars s' < COMPRESSION_THRESHOLD \<or> compressed_context s' = Some [])"
  proof (cases "total_chars s' < COMPRESSION_THRESHOLD \<or> c = []")
    case True
    then have "\<forall>now' llm'. maybe_compress now' llm' s' = Inr s'"
      using c len maybe_compress_below maybe_compress_nothing by fastforce
    with True c show ?thesis by simp
  next
    case False
    then have "maybe_compress 0 (\<lambda>msgs cur prefs. Inl (Exn [])) s' = Inl (Exn [])"
      using c by (intro maybe_compress_again) simp_all
    then have "\<not> (\<forall>now' llm'. maybe_compress now' llm' s' = Inr s')"
      by (metis sum.distinct(1))
    with False c show ?thesis by simp
  qed
  from c again have "\<exists>c. compressed_context s' = Some c
          \<and> (\<not> (total_chars s' < COMPRESSION_THRESHOLD \<or> c = []) \<longrightarrow>
               (\<forall>now' llm'. maybe_compress now' llm' s' =
                  (case llm' [\<lparr>role = SYSTEM, content = ''[Prior compressed context]: '' @ c,
                               timestamp = now', is_blocked = False\<rparr>]
                          (current_plan s') (user_preferences s') of
                     Inl e \<Rightarrow> Inl e
                   | Inr c' \<Rightarrow> Inr (s'\<lparr>compressed_context := Some c'\<rparr>))))"
    by blast
  with noop show ?thesis by (rule conjI)
qed

lemma total_chars_compressible_compressed: "total_chars compressible_compressed = 46"
  by (simp add: total_chars_def compressible_compressed_def compressible_session_def
      new_session_def long_message_def ex_message_def sum_list_replicate)

theorem maybe_compress_rerun_witness:
  "maybe_compress 2 (const_summarizer ''digest'') compressible_session
     = Inr compressible_compressed
   \<and> total_chars compressible_compressed = 46
   \<and> maybe_compress 5 failing_summarizer compressible_compressed = Inr compressible_compressed
   \<and> maybe_compress 2 (const_summarizer ''ABCD'') five_message_session
       = Inr five_message_compressed
   \<and> total_chars five_message_compressed = 24000
   \<and> maybe_compress 5 (const_summarizer ''second digest'') five_message_compressed
       = Inr (five_message_compressed\<lparr>compressed_context := Some ''second digest''\<rparr>)
   \<and> maybe_compress 5 failing_summarizer five_message_compressed = Inl (Exn ''timeout'')"
proof -
  have a2: "COMPRESSION_THRESHOLD \<le> total_chars compressible_session"
    by (simp add: total_chars_compressible threshold_value)
  have a3: "4 < length (messages compressible_session)
       \<or> truthy_str (compressed_context compressible_session)"
    by (simp add: compressible_session_def)
  have a: "\<forall>now' llm'. maybe_compress now' llm' compressible_compressed = Inr compressible_compressed"
    using maybe_compress_rerun [OF a2 a3 compressible_fires]
    by (simp add: total_chars_compressible_compressed threshold_value)
  have b2: "COMPRESSION_THRESHOLD \<le> total_chars five_message_session"
    by (simp add: total_chars_five threshold_value)
  have b3: "4 < length (messages five_message_session)
       \<or> truthy_str (compressed_context five_message_session)"
    by (simp add: five_message_session_def)
  have cc: "compressed_context five_message_compressed = Some ''ABCD''"
    by (simp add: five_message_compressed_def)
  have b: "\<forall>now' llm'. maybe_compress now' llm' five_message_compressed =
      (case llm' [\<lparr>role = SYSTEM, content = ''[Prior compressed context]: '' @ ''ABCD'',
                   timestamp = now', is_blocked = False\<rparr>]
              (current_plan five_message_compressed) (user_preferences five_message_compressed) of
         Inl e \<Rightarrow> Inl e
       | Inr c' \<Rightarrow> Inr (five_message_compressed\<lparr>compressed_context := Some c'\<rparr>))"
    using maybe_compress_rerun [OF b2 b3 five_message_fires]
    by (simp add: cc total_chars_five_compressed threshold_value)
  have b4: "maybe_compress 5 (const_summarizer ''second digest'') five_message_compressed
       = Inr (five_message_compressed\<lparr>compressed_context := Some ''second digest''\<rparr>)"
    using b by (simp add: const_summarizer_def)
  have b5: "maybe_compress 5 failing_summarizer five_message_compressed = Inl (Exn ''timeout'')"
    using b by (simp add: failing_summarizer_def)
  from a compressible_fires five_message_fires b4 b5 show ?thesis
    by (simp add: total_chars_compressible_compressed total_chars_five_compressed)
qed

section \<open>One turn and runs of turns\<close>

lemma maybe_compress_keeps:
  assumes "maybe_compress now llm s = Inr s'"
  shows "turn_count s' = turn_count s \<and> plan_versions s' = plan_versions s
       \<and> current_plan s' = current_plan s \<and> pending_plan s' = pending_plan s"
  using assms
  by (auto simp: maybe_compress_def Let_def split: if_splits sum.splits)

lemma preprocess_node_keeps:
  assumes "preprocess_node now now_c llm st = Inr st'"
  shows "turn_count (session st') = turn_count (session st) + 1
       \<and> plan_versions (session st') = plan_versions (session st)
       \<and> current_plan (session st') = current_plan (session st)
       \<and> pending_plan (session st') = pending_plan (session st)
       \<and> agent_response st' = agent_response st \<and> error st' = error st"
proof -
  let ?s = "(session st)
      \<lparr>messages := messages (session st) @
         [\<lparr>role = USER, content = user_input st, timestamp = now, is_blocked = False\<rparr>],
       turn_count := turn_count (session st) + 1,
       user_preferences := extract_preferences (user_input st) (user_preferences (session st))\<rparr>"
  from assms obtain s' where c: "maybe_compress now_c llm ?s = Inr s'"
    and st': "st' = st\<lparr>session := s'\<rparr>"
    by (auto simp: preprocess_node_def Let_def split: sum.splits)
  from maybe_compress_keeps [OF c] st' show ?thesis by simp
qed

lemma generate_node_session: "session (generate_node llm st) = session st"
  by (simp add: generate_node_def Let_def split: sum.splits exn.splits)

lemma postprocess_node_keeps:
  "turn_count (session (postprocess_node now now_v st)) = turn_count (session st)
   \<and> agent_response (postprocess_node now now_v st) = agent_response st
   \<and> error (postprocess_node now now_v st) = error st"
proof (cases "agent_response st")
  case None
  then show ?thesis by (simp add: postprocess_node_def Let_def)
next
  case (Some r)
  show ?thesis
  proof (cases "truthy_str (error st)")
    case True
    with Some show ?thesis by (simp add: postprocess_node_def Let_def)
  next
    case False
    show ?thesis
    proof (cases "plan r")
      case None
      with Some False show ?thesis by (simp add: postprocess_node_def Let_def)
    next
      case p: (Some p)
      with Some False show ?thesis
        by (cases "action r") (simp_all add: postprocess_node_def Let_def)
    qed
  qed
qed

lemma dense_versions_nth:
  "dense_versions pvs = (\<forall>i<length pvs. version (pvs ! i) = int i + 1)"
proof
  assume d: "dense_versions pvs"
  show "\<forall>i<length pvs. version (pvs ! i) = int i + 1"
  proof (intro allI impI)
    fix i assume i: "i < length pvs"
    then have "version (pvs ! i) = map version pvs ! i" by simp
    also have "\<dots> = map (\<lambda>i. int i + 1) [0..<length pvs] ! i"
      using d by (simp only: dense_versions_def)
    also have "\<dots> = int i + 1" using i by simp
    finally show "version (pvs ! i) = int i + 1" .
  qed
next
  assume a: "\<forall>i<length pvs. version (pvs ! i) = int i + 1"
  show "dense_versions pvs"
    unfolding dense_versions_def by (rule nth_equalityI) (simp_all add: a)
qed

lemma dense_versions_append:
  "dense_versions pvs \<Longrightarrow>
   dense_versions (pvs @ [\<lparr>version = int (length pvs) + 1, pv_plan = p,
                           pv_change_summary = c, created_at = t\<rparr>])"
  by (simp add: dense_versions_def)

lemma postprocess_node_length:
  "length (plan_versions (session (postprocess_node now now_v st))) =
     length (plan_versions (session st))
     + (if appends_version (agent_response st) (error st) then 1 else 0)"
proof (cases "agent_response st")
  case None
  then show ?thesis
    by (simp add: postprocess_node_def Let_def appends_version_def)
next
  case (Some r)
  show ?thesis
  proof (cases "truthy_str (error st)")
    case True
    with Some show ?thesis
      by (simp add: postprocess_node_def Let_def appends_version_def)
  next
    case False
    show ?thesis
    proof (cases "plan r")
      case None
      with Some False show ?thesis
        by (simp add: postprocess_node_def Let_def appends_version_def)
    next
      case p: (Some p)
      with Some False show ?thesis
        by (cases "action r") (simp_all add: postprocess_node_def Let_def appends_version_def)
    qed
  qed
qed

lemma postprocess_node_dense:
  assumes "dense_versions (plan_versions (session st))"
  shows "dense_versions (plan_versions (session (postprocess_node now now_v st)))"
proof (cases "agent_response st")
  case None
  with assms show ?thesis
    by (simp add: postprocess_node_def Let_def)
next
  case (Some r)
  show ?thesis
  proof (cases "truthy_str (error st)")
    case True
    with Some assms show ?thesis
      by (simp add: postprocess_node_def Let_def)
  next
    case False
    show ?thesis
    proof (cases "plan r")
      case None
      with Some False assms show ?thesis
        by (simp add: postprocess_node_def Let_def)
    next
      case p: (Some p)
      with Some False assms dense_versions_append show ?thesis
        by (cases "action r") (simp_all add: postprocess_node_def Let_def)
    qed
  qed
qed

lemma run_agent_step:
  assumes "run_agent env s txt = Inr (s', r, e)"
  shows "turn_count s' = turn_count s + 1
       \<and> (dense_versions (plan_versions s) \<longrightarrow> dense_versions (plan_versions s'))
       \<and> length (plan_versions s') =
           length (plan_versions s) + (if appends_version r e then 1 else 0)"
proof -
  let ?init = "\<lparr>session = s, user_input = txt, agent_response = None, error = None\<rparr>"
  from assms obtain st where pre:
    "preprocess_node (user_clock env) (compress_clock env) (summarize env) ?init = Inr st"
    and res: "(s', r, e) =
      (let result = postprocess_node (reply_clock env) (version_clock env)
                      (generate_node (decide env) st)
       in (session result, agent_response result, error result))"
    by (auto simp: run_agent_def Let_def split: sum.splits)
  let ?g = "generate_node (decide env) st"
  let ?p = "postprocess_node (reply_clock env) (version_clock env) ?g"
  from res have s': "s' = session ?p" and r: "r = agent_response ?p" and e: "e = error ?p"
    by (simp_all add: Let_def)
  have k: "turn_count (session st) = turn_count s + 1"
    "plan_versions (session st) = plan_versions s"
    using preprocess_node_keeps [OF pre] by simp_all
  have g: "session ?g = session st" by (rule generate_node_session)
  have pk: "turn_count (session ?p) = turn_count (session ?g)"
    "agent_response ?p = agent_response ?g" "error ?p = error ?g"
    using postprocess_node_keeps [of "reply_clock env" "version_clock env" ?g] by simp_all
  have tc: "turn_count s' = turn_count s + 1"
    using s' pk(1) g k(1) by simp
  have dv: "dense_versions (plan_versions s) \<longrightarrow> dense_versions (plan_versions s')"
    using postprocess_node_dense [of ?g "reply_clock env" "version_clock env"] s' g k(2)
    by simp
  have ln: "length (plan_versions s') =
           length (plan_versions s) + (if appends_version r e then 1 else 0)"
  proof -
    have "length (plan_versions (session ?p)) =
           length (plan_versions (session ?g))
           + (if appends_version (agent_response ?g) (error ?g) then 1 else 0)"
      by (rule postprocess_node_length)
    then show ?thesis using s' r e pk g k(2) by simp
  qed
  from tc dv ln show ?thesis by blast
qed

lemma run_turns_invariant:
  assumes "run_turns turns s = Inr s'"
  shows "turn_count s' = turn_count s + int (length turns)
       \<and> (dense_versions (plan_versions s) \<longrightarrow> dense_versions (plan_versions s'))
       \<and> length (plan_versions s') = length (plan_versions s) + applied_count turns s"
  using assms
proof (induction turns arbitrary: s)
  case Nil
  then show ?case by simp
next
  case (Cons t turns)
  obtain tx env where t: "t = (tx, env)" by (cases t)
  from Cons.prems t obtain s1 r e where
    step: "run_agent env s tx = Inr (s1, r, e)" and rest: "run_turns turns s1 = Inr s'"
    by (auto split: sum.splits)
  note a = run_agent_step [OF step]
  note b = Cons.IH [OF rest]
  have ac: "applied_count (t # turns) s =
      (if appends_version r e then 1 else 0) + applied_count turns s1"
    using step t by simp
  from a b ac show ?case by simp
qed

lemma run_agent_returns:
  assumes "preprocess_node (user_clock env) (compress_clock env) (summarize env)
             \<lparr>session = s, user_input = txt, agent_response = None, error = None\<rparr> = Inr st"
  shows "\<exists>s' r e. run_agent (env\<lparr>decide := d\<rparr>) s txt = Inr (s', r, e)"
  using assms by (simp add: run_agent_def Let_def)

text \<open>
  Claim C3. Over every sequence of processed user messages \<open>turn_count\<close> grows by
  exactly 1 per message, so after \<open>n\<close> turns on a new session it is \<open>n\<close>; and a
  turn whose ingest stage has completed returns with the count raised by 1 whatever
  the decision call does, failure included. (A turn is processed when its pipeline
  returns; the one way it does not is a summary call that raises during ingest.)
\<close>

theorem turn_count_counts_turns:
  "(run_turns turns s = Inr s' \<longrightarrow> turn_count s' = turn_count s + int (length turns))
   \<and> (run_turns turns (new_session sid uid) = Inr s'' \<longrightarrow> turn_count s'' = int (length turns))
   \<and> (preprocess_node (user_clock env) (compress_clock env) (summarize env)
         \<lparr>session = s, user_input = txt, agent_response = None, error = None\<rparr> = Inr st \<longrightarrow>
       (\<forall>d. \<exists>s1 r e. run_agent (env\<lparr>decide := d\<rparr>) s txt = Inr (s1, r, e)
              \<and> turn_count s1 = turn_count s + 1))"
proof (intro conjI impI allI)
  assume "run_turns turns s = Inr s'"
  then show "turn_count s' = turn_count s + int (length turns)"
    using run_turns_invariant by blast
next
  assume "run_turns turns (new_session sid uid) = Inr s''"
  from run_turns_invariant [OF this] show "turn_count s'' = int (length turns)"
    by (simp add: new_session_def)
next
  fix d
  assume pre: "preprocess_node (user_clock env) (compress_clock env) (summarize env)
         \<lparr>session = s, user_input = txt, agent_response = None, error = None\<rparr> = Inr st"
  from run_agent_returns [OF pre] obtain s1 r e where
    "run_agent (env\<lparr>decide := d\<rparr>) s txt = Inr (s1, r, e)" by blast
  with run_agent_step [OF this]
  show "\<exists>s1 r e. run_agent (env\<lparr>decide := d\<rparr>) s txt = Inr (s1, r, e)
              \<and> turn_count s1 = turn_count s + 1"
    by blast
qed

text \<open>
  Claim C2. Every sequence of turns (each one ingest, compression and the application
  of a decision of any action) preserves the invariant that the version numbers of
  \<open>plan_versions\<close> are 1, 2, ... in order, and lengthens the log by the number of
  CREATE and UPDATE decisions applied; so in every session reached from a new one,
  \<open>plan_versions[i].version = i + 1\<close> for all \<open>i\<close> and the length of the log is
  the number of CREATE and UPDATE decisions applied.
\<close>

theorem plan_versions_dense:
  "(dense_versions (plan_versions s) \<and> run_turns turns s = Inr s' \<longrightarrow>
      (\<forall>i<length (plan_versions s'). version (plan_versions s' ! i) = int i + 1)
      \<and> length (plan_versions s') = length (plan_versions s) + applied_count turns s)
   \<and> (run_turns turns (new_session sid uid) = Inr s'' \<longrightarrow>
      (\<forall>i<length (plan_versions s''). version (plan_versions s'' ! i) = int i + 1)
      \<and> length (plan_versions s'') = applied_count turns (new_session sid uid))"
proof (intro conjI impI)
  assume a: "dense_versions (plan_versions s) \<and> run_turns turns s = Inr s'"
  then have r: "run_turns turns s = Inr s'" and d: "dense_versions (plan_versions s)"
    by simp_all
  from run_turns_invariant [OF r] d
  show "\<forall>i<length (plan_versions s'). version (plan_versions s' ! i) = int i + 1"
    by (simp add: dense_versions_nth)
  from run_turns_invariant [OF r]
  show "length (plan_versions s') = length (plan_versions s) + applied_count turns s"
    by simp
next
  assume r: "run_turns turns (new_session sid uid) = Inr s''"
  have d: "dense_versions (plan_versions (new_session sid uid))"
    by (simp add: dense_versions_def new_session_def)
  from run_turns_invariant [OF r] d
  show "\<forall>i<length (plan_versions s''). version (plan_versions s'' ! i) = int i + 1"
    by (simp add: dense_versions_nth)
  from run_turns_invariant [OF r]
  show "length (plan_versions s'') = applied_count turns (new_session sid uid)"
    by (simp add: new_session_def)
qed

lemma extract_preferences_no_match:
  assumes "\<forall>(k, kws) \<in> set PREFERENCE_KEYWORDS. \<forall>(w, v) \<in> set kws.
          \<not> str_contains w (str_lower text)"
  shows "extract_preferences text existing = existing"
proof -
  have "\<forall>c \<in> set PREFERENCE_KEYWORDS. matching_values (str_lower text) (snd c) = []"
    using assms by (fastforce simp: matching_values_empty)
  then show ?thesis
    by (simp add: extract_preferences_def scan_categories_nomatch)
qed

lemma no_match_hello:
  "\<forall>(k, kws) \<in> set PREFERENCE_KEYWORDS. \<forall>(w, v) \<in> set kws.
     \<not> str_contains w (str_lower ''hello'')"
  by code_simp

lemmas hello_plain = extract_preferences_no_match [OF no_match_hello]

lemma maybe_compress_total:
  assumes "\<forall>m c p. \<exists>x. llm m c p = Inr x"
  shows "\<exists>s'. maybe_compress now llm s = Inr s'"
proof -
  let ?prior = "case compressed_context s of
        None \<Rightarrow> []
      | Some c \<Rightarrow>
          if c \<noteq> [] then
            [\<lparr>role = SYSTEM, content = ''[Prior compressed context]: '' @ c,
              timestamp = now, is_blocked = False\<rparr>]
          else []"
  let ?old = "if 4 < length (messages s) then take (length (messages s) - 4) (messages s) else []"
  from assms obtain x where
    "llm (?prior @ ?old) (current_plan s) (user_preferences s) = Inr x" by blast
  then show ?thesis
    by (simp add: maybe_compress_def Let_def compress_history_def)
qed

lemma preprocess_node_total:
  assumes "\<forall>m c p. \<exists>x. llm m c p = Inr x"
  shows "\<exists>st'. preprocess_node now now_c llm st = Inr st'"
proof -
  let ?s = "(session st)
      \<lparr>messages := messages (session st) @
         [\<lparr>role = USER, content = user_input st, timestamp = now, is_blocked = False\<rparr>],
       turn_count := turn_count (session st) + 1,
       user_preferences := extract_preferences (user_input st) (user_preferences (session st))\<rparr>"
  from maybe_compress_total [OF assms] obtain s' where "maybe_compress now_c llm ?s = Inr s'"
    by blast
  then show ?thesis by (simp add: preprocess_node_def Let_def)
qed

lemma generate_node_result:
  assumes "agent_response st = None"
  shows "agent_response (generate_node llm st) =
           outcome_response (llm (current_plan (session st)) (pending_plan (session st))
              (user_preferences (session st)) (build_context_messages (session st)))
       \<and> error (generate_node llm st) =
           outcome_error (llm (current_plan (session st)) (pending_plan (session st))
              (user_preferences (session st)) (build_context_messages (session st)))"
proof (cases "llm (current_plan (session st)) (pending_plan (session st))
              (user_preferences (session st)) (build_context_messages (session st))")
  case (Inl x)
  obtain m where "x = Exn m" by (cases x)
  with Inl assms show ?thesis by (simp add: generate_node_def Let_def)
next
  case (Inr r)
  then show ?thesis by (simp add: generate_node_def Let_def)
qed

lemma postprocess_node_degraded:
  "agent_response st = None \<Longrightarrow>
   postprocess_node now now_v st =
     st\<lparr>session := (session st)\<lparr>messages := messages (session st) @
        [\<lparr>role = ASSISTANT, content = FALLBACK_MESSAGE, timestamp = now,
          is_blocked = False\<rparr>]\<rparr>\<rparr>"
  by (simp add: postprocess_node_def Let_def)

lemma run_agent_unfold:
  assumes "preprocess_node (user_clock env) (compress_clock env) (summarize env)
             \<lparr>session = s, user_input = tx, agent_response = None, error = None\<rparr> = Inr st"
  shows "run_agent env s tx =
           Inr (session (postprocess_node (reply_clock env) (version_clock env)
                           (generate_node (decide env) st)),
                outcome_response (decide env (current_plan (session st)) (pending_plan (session st))
                  (user_preferences (session st)) (build_context_messages (session st))),
                outcome_error (decide env (current_plan (session st)) (pending_plan (session st))
                  (user_preferences (session st)) (build_context_messages (session st))))"
proof -
  have n: "agent_response st = None"
    using preprocess_node_keeps [OF assms] by simp
  show ?thesis
    using assms generate_node_result [OF n, of "decide env"]
      postprocess_node_keeps [of "reply_clock env" "version_clock env" "generate_node (decide env) st"]
    by (simp add: run_agent_def Let_def)
qed

lemma ex_turn_summarize: "\<forall>m c p. \<exists>x. summarize (ex_turn d) m c p = Inr x"
  by (simp add: ex_turn_def const_summarizer_def)

lemma run_agent_ex_turn:
  "\<exists>s'. run_agent (ex_turn d) s tx = Inr (s', outcome_response d, outcome_error d)"
proof -
  from preprocess_node_total [OF ex_turn_summarize] obtain st where
    "preprocess_node (user_clock (ex_turn d)) (compress_clock (ex_turn d)) (summarize (ex_turn d))
       \<lparr>session = s, user_input = tx, agent_response = None, error = None\<rparr> = Inr st"
    by blast
  from run_agent_unfold [OF this] show ?thesis by (simp add: ex_turn_def)
qed

lemma ex_turn_runs:
  "\<exists>s'. run_turns (map (\<lambda>x. (fst x, ex_turn (snd x))) xs) s = Inr s'
     \<and> applied_count (map (\<lambda>x. (fst x, ex_turn (snd x))) xs) s =
         length (filter (\<lambda>x. appends_version (outcome_response (snd x)) (outcome_error (snd x))) xs)"
proof (induction xs arbitrary: s)
  case Nil
  show ?case by simp
next
  case (Cons x xs)
  from run_agent_ex_turn obtain s1 where
    s1: "run_agent (ex_turn (snd x)) s (fst x)
           = Inr (s1, outcome_response (snd x), outcome_error (snd x))"
    by blast
  from Cons.IH [of s1] s1 show ?case by simp
qed

lemma ex_turns_map:
  "ex_turns = map (\<lambda>x. (fst x, ex_turn (snd x)))
     [(''hello'', Inr (Some (ex_response PROPOSE (Some ex_plan)))),
      (''hello'', Inl (Exn ''timeout'')),
      (''go ahead'', Inr (Some (ex_response CREATE (Some ex_plan)))),
      (''go ahead'', Inr (Some (ex_response UPDATE (Some ex_plan_revised)))),
      (''go ahead'', Inr (Some (ex_response UPDATE None)))]"
  by (simp add: ex_turns_def)

lemma ex_turns_run:
  "\<exists>s'. run_turns ex_turns s = Inr s' \<and> applied_count ex_turns s = 2"
  using ex_turn_runs
    [of "[(''hello'', Inr (Some (ex_response PROPOSE (Some ex_plan)))),
      (''hello'', Inl (Exn ''timeout'')),
      (''go ahead'', Inr (Some (ex_response CREATE (Some ex_plan)))),
      (''go ahead'', Inr (Some (ex_response UPDATE (Some ex_plan_revised)))),
      (''go ahead'', Inr (Some (ex_response UPDATE None)))]" s]
  unfolding ex_turns_map [symmetric]
  by (simp add: appends_version_def ex_response_def)

theorem turn_count_counts_turns_witness:
  "(\<exists>s'. run_turns ex_turns (new_session ''s1'' ''u1'') = Inr s' \<and> turn_count s' = 5)
   \<and> (\<exists>s1 r e. run_agent ((ex_turn (Inr None))\<lparr>decide := decide (ex_turn (Inl (Exn ''timeout'')))\<rparr>)
          (new_session ''s1'' ''u1'') ''hello'' = Inr (s1, r, e)
        \<and> turn_count s1 = 1)"
proof
  from ex_turns_run obtain s' where r: "run_turns ex_turns (new_session ''s1'' ''u1'') = Inr s'"
    by blast
  from turn_count_counts_turns [of ex_turns "new_session ''s1'' ''u1''" s' "''s1''" "''u1''" s'] r
  have "turn_count s' = int (length ex_turns)" by blast
  then have "turn_count s' = 5" by (simp add: ex_turns_def)
  with r show "\<exists>s'. run_turns ex_turns (new_session ''s1'' ''u1'') = Inr s' \<and> turn_count s' = 5"
    by blast
next
  from preprocess_node_total [OF ex_turn_summarize] obtain st where
    pre: "preprocess_node (user_clock (ex_turn (Inr None))) (compress_clock (ex_turn (Inr None)))
       (summarize (ex_turn (Inr None)))
       \<lparr>session = new_session ''s1'' ''u1'', user_input = ''hello'', agent_response = None,
         error = None\<rparr> = Inr st"
    by blast
  from turn_count_counts_turns
    [of "[]" "new_session ''s1'' ''u1''" "new_session ''s1'' ''u1''" "''s1''" "''u1''"
        "new_session ''s1'' ''u1''" "ex_turn (Inr None)" "''hello''" st] pre
  have "\<forall>d. \<exists>s1 r e. run_agent ((ex_turn (Inr None))\<lparr>decide := d\<rparr>)
          (new_session ''s1'' ''u1'') ''hello'' = Inr (s1, r, e)
        \<and> turn_count s1 = turn_count (new_session ''s1'' ''u1'') + 1"
    by blast
  then show "\<exists>s1 r e. run_agent ((ex_turn (Inr None))\<lparr>decide := decide (ex_turn (Inl (Exn ''timeout'')))\<rparr>)
          (new_session ''s1'' ''u1'') ''hello'' = Inr (s1, r, e)
        \<and> turn_count s1 = 1"
    by (simp add: new_session_def)
qed

theorem plan_versions_dense_witness:
  "\<exists>s'. run_turns ex_turns (new_session ''s1'' ''u1'') = Inr s'
     \<and> length (plan_versions s') = 2
     \<and> version (plan_versions s' ! 0) = 1 \<and> version (plan_versions s' ! 1) = 2"
proof -
  from ex_turns_run obtain s' where r: "run_turns ex_turns (new_session ''s1'' ''u1'') = Inr s'"
    and c: "applied_count ex_turns (new_session ''s1'' ''u1'') = 2"
    by blast
  from plan_versions_dense
    [of "new_session ''s1'' ''u1''" ex_turns s' "''s1''" "''u1''" s'] r
  have d: "\<forall>i<length (plan_versions s'). version (plan_versions s' ! i) = int i + 1"
    and l: "length (plan_versions s') = applied_count ex_turns (new_session ''s1'' ''u1'')"
    by blast+
  from l c have l2: "length (plan_versions s') = 2" by simp
  from d l2 have "version (plan_versions s' ! 0) = 1" "version (plan_versions s' ! 1) = 2"
    by simp_all
  with r l2 show ?thesis by blast
qed

section \<open>The chat endpoint\<close>

lemma chat_unfold:
  assumes "user_id s = Some uid"
    and "preprocess_node (user_clock env) (compress_clock env) (summarize env)
           \<lparr>session = s, user_input = message req, agent_response = None, error = None\<rparr> = Inr st"
  shows "chat (Some s) uid req env =
     Inr (session (postprocess_node (reply_clock env) (version_clock env)
                     (generate_node (decide env) st)),
          chat_response
            (session (postprocess_node (reply_clock env) (version_clock env)
                     (generate_node (decide env) st)))
            (outcome_response (decide env (current_plan (session st)) (pending_plan (session st))
                  (user_preferences (session st)) (build_context_messages (session st))))
            (outcome_error (decide env (current_plan (session st)) (pending_plan (session st))
                  (user_preferences (session st)) (build_context_messages (session st)))))"
  using assms(1) run_agent_unfold [OF assms(2)] by (simp add: chat_def)

text \<open>
  Claim C4. When the decision call of a turn fails (it raises, or it returns no
  structured response), the turn still completes and its apply stage changes no plan
  state: \<open>current_plan\<close>, \<open>pending_plan\<close> and \<open>plan_versions\<close> of the saved session
  are those of the session after ingest, whose log gains one fixed fallback message;
  and the caller's response text is a fixed message that does not depend on the error.
\<close>

theorem degraded_turn_keeps_plan_state:
  assumes "user_id s = Some uid"
    and "preprocess_node (user_clock env) (compress_clock env) (summarize env)
           \<lparr>session = s, user_input = message req, agent_response = None, error = None\<rparr> = Inr st"
    and "isl (decide env (current_plan (session st)) (pending_plan (session st))
                (user_preferences (session st)) (build_context_messages (session st)))
         \<or> decide env (current_plan (session st)) (pending_plan (session st))
                (user_preferences (session st)) (build_context_messages (session st)) = Inr None"
  shows "\<exists>s' resp. chat (Some s) uid req env = Inr (s', resp)
     \<and> current_plan s' = current_plan (session st)
     \<and> pending_plan s' = pending_plan (session st)
     \<and> plan_versions s' = plan_versions (session st)
     \<and> messages s' = messages (session st) @
          [\<lparr>role = ASSISTANT, content = FALLBACK_MESSAGE, timestamp = reply_clock env,
            is_blocked = False\<rparr>]
     \<and> response resp = DEGRADED_RESPONSE \<and> cr_action resp = NONE"
proof -
  let ?d = "decide env (current_plan (session st)) (pending_plan (session st))
                (user_preferences (session st)) (build_context_messages (session st))"
  let ?g = "generate_node (decide env) st"
  have n: "agent_response st = None"
    using preprocess_node_keeps [OF assms(2)] by simp
  have o: "outcome_response ?d = None"
    using assms(3) by (cases ?d) auto
  have gn: "agent_response ?g = None"
    using generate_node_result [OF n, of "decide env"] o by simp
  have p: "session (postprocess_node (reply_clock env) (version_clock env) ?g) =
      (session st)\<lparr>messages := messages (session st) @
        [\<lparr>role = ASSISTANT, content = FALLBACK_MESSAGE, timestamp = reply_clock env,
          is_blocked = False\<rparr>]\<rparr>"
    using postprocess_node_degraded [OF gn] generate_node_session [of "decide env" st] by simp
  show ?thesis
    using chat_unfold [OF assms(1,2)] o p by (simp add: chat_response_def)
qed

lemma run_agent_error_none:
  assumes "run_agent env s tx = Inr (s', Some r, e)"
  shows "e = None"
proof -
  from assms obtain st where pre:
    "preprocess_node (user_clock env) (compress_clock env) (summarize env)
       \<lparr>session = s, user_input = tx, agent_response = None, error = None\<rparr> = Inr st"
    by (auto simp: run_agent_def Let_def split: sum.splits)
  let ?d = "decide env (current_plan (session st)) (pending_plan (session st))
                (user_preferences (session st)) (build_context_messages (session st))"
  from run_agent_unfold [OF pre] assms
  have "outcome_response ?d = Some r" and e: "e = outcome_error ?d" by simp_all
  then have "?d = Inr (Some r)" by (cases ?d) simp_all
  with e show ?thesis by simp
qed

text \<open>
  Claim C9, amended. For every chat turn the plan of the response echoes
  \<open>current_plan\<close> when the action is NONE (the action of every degraded turn) and is
  the decision's plan otherwise; \<open>plan_version\<close> is the number of plan versions so
  far when there is at least one and is absent when there is none; and for a turn
  whose decision call succeeded \<open>awaiting_confirmation\<close> is true if and only if
  \<open>pending_plan\<close> is set after the turn.
\<close>

theorem chat_response_fields:
  assumes "chat (Some s) uid req env = Inr (s', resp)"
  shows "\<exists>agent_resp err. run_agent env s (message req) = Inr (s', agent_resp, err)
     \<and> (case agent_resp of
          Some r \<Rightarrow>
            cr_action resp = action r
            \<and> cr_plan resp = (if action r = NONE then current_plan s' else plan r)
            \<and> awaiting_confirmation resp = (pending_plan s' \<noteq> None)
        | None \<Rightarrow> cr_action resp = NONE \<and> cr_plan resp = current_plan s')
     \<and> plan_version resp =
         (if plan_versions s' = [] then None else Some (int (length (plan_versions s'))))
     \<and> cr_turn_count resp = turn_count s'"
proof -
  from assms obtain agent_resp err where
    run: "run_agent env s (message req) = Inr (s', agent_resp, err)"
    and resp: "resp = chat_response s' agent_resp err"
    by (auto simp: chat_def split: if_splits sum.splits)
  show ?thesis
  proof (cases agent_resp)
    case None
    with run resp show ?thesis
      by (simp add: chat_response_def version_count_def)
  next
    case (Some r)
    with run have "err = None" using run_agent_error_none by blast
    with Some run resp show ?thesis
      by (simp add: chat_response_def version_count_def)
  qed
qed

lemmas turn_eval =
  chat_def run_agent_def preprocess_node_def hello_plain maybe_compress_def
  total_chars_def threshold_value generate_node_def postprocess_node_def Let_def
  ex_turn_def ex_session_def new_session_def ex_response_def ex_request_def
  chat_response_def version_count_def

lemma first_chat_eval:
  "\<exists>s' resp. first_chat = Inr (s', resp) \<and> plan_versions s' = [] \<and> plan_version resp = None"
  by (simp add: first_chat_def turn_eval)

lemma confirming_chat_eval:
  "\<exists>s' resp. confirming_chat = Inr (s', resp) \<and> pending_plan s' = None
      \<and> length (plan_versions s') = 1"
  by (simp add: confirming_chat_def turn_eval)

text \<open>
  The degraded response is built without \<open>awaiting_confirmation\<close>, which then takes
  its default: a degraded turn on a session with a pending plan answers \<open>False\<close>.
\<close>

lemma degraded_chat_not_awaiting:
  "\<exists>s' resp. degraded_chat = Inr (s', resp) \<and> pending_plan s' = Some ex_plan
      \<and> awaiting_confirmation resp = False"
  by (simp add: degraded_chat_def turn_eval)

text \<open>
  Claim C9, as stated, fails: after a first turn with action NONE on a new session the
  session has 0 plan versions, and the response carries no \<open>plan_version\<close> at all
  rather than the count 0.
\<close>

theorem chat_plan_version_counterexample:
  "\<not> isl first_chat
   \<and> length (plan_versions (fst (projr first_chat))) = 0
   \<and> plan_version (snd (projr first_chat)) = None
   \<and> plan_version (snd (projr first_chat)) \<noteq> Some 0"
proof -
  from first_chat_eval obtain s' resp where
    e: "first_chat = Inr (s', resp)" and v: "plan_versions s' = []"
    and n: "plan_version resp = None"
    by blast
  show ?thesis unfolding e using v n by simp
qed

theorem chat_response_fields_witness:
  "\<exists>s' resp. confirming_chat = Inr (s', resp)
     \<and> cr_action resp = CREATE \<and> cr_plan resp = Some ex_plan_revised
     \<and> awaiting_confirmation resp = False \<and> plan_version resp = Some 1"
proof -
  from confirming_chat_eval obtain s' resp where
    c: "confirming_chat = Inr (s', resp)" and p: "pending_plan s' = None"
    and l: "length (plan_versions s') = 1"
    by blast
  from c have c': "chat (Some ex_session) ''u1'' ex_request
       (ex_turn (Inr (Some (ex_response CREATE (Some ex_plan_revised))))) = Inr (s', resp)"
    by (simp add: confirming_chat_def)
  from chat_response_fields [OF c'] obtain agent_resp err where
    run: "run_agent (ex_turn (Inr (Some (ex_response CREATE (Some ex_plan_revised)))))
            ex_session (message ex_request) = Inr (s', agent_resp, err)"
    and f: "(case agent_resp of
          Some r \<Rightarrow>
            cr_action resp = action r
            \<and> cr_plan resp = (if action r = NONE then current_plan s' else plan r)
            \<and> awaiting_confirmation resp = (pending_plan s' \<noteq> None)
        | None \<Rightarrow> cr_action resp = NONE \<and> cr_plan resp = current_plan s')"
    and v: "plan_version resp =
         (if plan_versions s' = [] then None else Some (int (length (plan_versions s'))))"
    by blast
  from run_agent_ex_turn [of "Inr (Some (ex_response CREATE (Some ex_plan_revised)))"
      ex_session "message ex_request"] run
  have a: "agent_resp = Some (ex_response CREATE (Some ex_plan_revised))" by auto
  from f a p have "cr_action resp = CREATE" "cr_plan resp = Some ex_plan_revised"
    "awaiting_confirmation resp = False"
    by (simp_all add: ex_response_def)
  moreover from v l have "plan_version resp = Some 1" by auto
  ultimately show ?thesis using c by blast
qed

theorem degraded_turn_keeps_plan_state_witness:
  "\<exists>s' resp. degraded_chat = Inr (s', resp)
     \<and> current_plan s' = Some ex_plan \<and> pending_plan s' = Some ex_plan
     \<and> plan_versions s' = []
     \<and> response resp = ''Sorry, something went wrong. Please try again.''"
proof -
  let ?env = "ex_turn (Inl (Exn ''connection reset''))"
  from preprocess_node_total [OF ex_turn_summarize] obtain st where
    pre: "preprocess_node (user_clock ?env) (compress_clock ?env) (summarize ?env)
       \<lparr>session = ex_session, user_input = message ex_request, agent_response = None,
         error = None\<rparr> = Inr st"
    by blast
  have u: "user_id ex_session = Some ''u1''"
    by (simp add: ex_session_def new_session_def)
  have d: "isl (decide ?env (current_plan (session st)) (pending_plan (session st))
                (user_preferences (session st)) (build_context_messages (session st)))
         \<or> decide ?env (current_plan (session st)) (pending_plan (session st))
                (user_preferences (session st)) (build_context_messages (session st)) = Inr None"
    by (simp add: ex_turn_def)
  from degraded_turn_keeps_plan_state [OF u pre d] obtain s' resp where
    c: "chat (Some ex_session) ''u1'' ex_request ?env = Inr (s', resp)"
    and k: "current_plan s' = current_plan (session st)"
      "pending_plan s' = pending_plan (session st)"
      "plan_versions s' = plan_versions (session st)"
    and r: "response resp = DEGRADED_RESPONSE"
    by blast
  from preprocess_node_keeps [OF pre] k
  have "current_plan s' = Some ex_plan" "pending_plan s' = Some ex_plan" "plan_versions s' = []"
    by (simp_all add: ex_session_def new_session_def)
  with c r show ?thesis
    by (simp add: degraded_chat_def DEGRADED_RESPONSE_def)
qed

end
